theory Spec2Isabelle
  imports Main "HOL-Library.Product_Lexorder"
begin

section \<open>The sync run summary and its rendering (ui/src/App.tsx, ui/src/types.ts)\<close>

text \<open>
  \<^verbatim>\<open>SyncRunSummary\<close> is the interface of the UI's type declarations: six fields of
  TypeScript type \<^verbatim>\<open>number\<close>. The backend fills them with job and item counts, so the
  fields are modelled as (unbounded) integers; negative values are kept, since the
  interface does not exclude them and \<^verbatim>\<open>summarizeSync\<close> compares against zero.
\<close>

record SyncRunSummary =
  completed_jobs :: int
  failed_jobs :: int
  retried_jobs :: int
  email_messages_synced :: int
  calendar_events_synced :: int
  tasks_synced :: int

text \<open>
  A template literal \<^verbatim>\<open>`${n}`\<close> renders an integral number in decimal, with a leading
  minus sign when it is negative (ECMAScript Number::toString, for magnitudes below
  \<open>10^21\<close>).
\<close>

definition digit_char :: "nat \<Rightarrow> char" where
  "digit_char d = ''0123456789'' ! (d mod 10)"

function nat_to_string :: "nat \<Rightarrow> string" where
  "nat_to_string n =
     (if n < 10 then [digit_char n] else nat_to_string (n div 10) @ [digit_char (n mod 10)])"
  by pat_completeness auto
termination
  by (relation "measure (\<lambda>n. n)") auto

definition number_to_string :: "int \<Rightarrow> string" where
  "number_to_string i =
     (if i < 0 then CHR ''-'' # nat_to_string (nat (- i)) else nat_to_string (nat i))"

text \<open>\<^verbatim>\<open>Array.prototype.join\<close>: the elements with the separator between neighbours.\<close>

fun join_str :: "string \<Rightarrow> string list \<Rightarrow> string" where
  "join_str sep [] = []"
| "join_str sep [x] = x"
| "join_str sep (x # y # ys) = x @ sep @ join_str sep (y # ys)"

text \<open>
  \<^verbatim>\<open>
  function summarizeSync(summary: SyncRunSummary): string {
    const parts: string[] = [];
    if (summary.email_messages_synced > 0) parts.push(`${summary.email_messages_synced} email items`);
    if (summary.calendar_events_synced > 0) parts.push(`${summary.calendar_events_synced} calendar events`);
    if (summary.tasks_synced > 0) parts.push(`${summary.tasks_synced} tasks`);
    if (summary.retried_jobs > 0) parts.push(`${summary.retried_jobs} retried`);
    if (summary.failed_jobs > 0) parts.push(`${summary.failed_jobs} failed`);
    return parts.length === 0 ? `${summary.completed_jobs} completed jobs` : parts.join(" | ");
  }
  \<close>
  The array \<^verbatim>\<open>parts\<close> is threaded through the five conditional pushes.
\<close>

definition push_if :: "bool \<Rightarrow> string \<Rightarrow> string list \<Rightarrow> string list" where
  "push_if c s parts = (if c then parts @ [s] else parts)"

definition summarizeSync :: "SyncRunSummary \<Rightarrow> string" where
  "summarizeSync summary =
     (let parts = [];
          parts = push_if (email_messages_synced summary > 0)
                    (number_to_string (email_messages_synced summary) @ '' email items'') parts;
          parts = push_if (calendar_events_synced summary > 0)
                    (number_to_string (calendar_events_synced summary) @ '' calendar events'') parts;
          parts = push_if (tasks_synced summary > 0)
                    (number_to_string (tasks_synced summary) @ '' tasks'') parts;
          parts = push_if (retried_jobs summary > 0)
                    (number_to_string (retried_jobs summary) @ '' retried'') parts;
          parts = push_if (failed_jobs summary > 0)
                    (number_to_string (failed_jobs summary) @ '' failed'') parts
      in if length parts = 0
         then number_to_string (completed_jobs summary) @ '' completed jobs''
         else join_str '' | '' parts)"

text \<open>
  The description of \<^verbatim>\<open>summarizeSync\<close> in words: the five counters with their labels
  in the fixed order, those greater than zero kept, each rendered as number and label.
\<close>

definition counter_labels :: "SyncRunSummary \<Rightarrow> (int \<times> string) list" where
  "counter_labels s =
     [(email_messages_synced s, '' email items''),
      (calendar_events_synced s, '' calendar events''),
      (tasks_synced s, '' tasks''),
      (retried_jobs s, '' retried''),
      (failed_jobs s, '' failed'')]"

definition positive_descriptions :: "SyncRunSummary \<Rightarrow> string list" where
  "positive_descriptions s =
     map (\<lambda>(v, l). number_to_string v @ l) (filter (\<lambda>(v, l). v > 0) (counter_labels s))"

definition all_counters_nonpositive :: "SyncRunSummary \<Rightarrow> bool" where
  "all_counters_nonpositive s \<longleftrightarrow>
     email_messages_synced s \<le> 0 \<and> calendar_events_synced s \<le> 0 \<and> tasks_synced s \<le> 0 \<and>
     retried_jobs s \<le> 0 \<and> failed_jobs s \<le> 0"


definition example_summary :: SyncRunSummary where
  "example_summary = \<lparr>completed_jobs = 3, failed_jobs = 0, retried_jobs = 2,
     email_messages_synced = 120, calendar_events_synced = -1, tasks_synced = 7\<rparr>"

definition quiet_summary :: SyncRunSummary where
  "quiet_summary = \<lparr>completed_jobs = 3, failed_jobs = 0, retried_jobs = 0,
     email_messages_synced = 0, calendar_events_synced = -1, tasks_synced = 0\<rparr>"

section \<open>The UI's API wrapper (ui/src/lib/api.ts) and its types (ui/src/types.ts)\<close>

subsection \<open>Types\<close>

datatype Provider =
  Gmail | Outlook | Yahoo | Icloud | FastMail | ProtonBridge | Generic | Exchange

record OAuthProfile =
  client_id :: string
  auth_url :: string
  token_url :: string
  redirect_url :: string
  scopes :: "string list"

text \<open>The field \<^verbatim>\<open>id\<close> of \<^verbatim>\<open>Account\<close> is \<open>acc_id\<close> here (\<open>id\<close> is HOL's identity).\<close>

record Account =
  acc_id :: string
  acc_provider :: Provider
  acc_protocols :: "string list"
  acc_display_name :: string
  acc_email_address :: string
  acc_oauth_profile :: "OAuthProfile option"
  acc_created_at :: string
  acc_updated_at :: string

text \<open>\<^verbatim>\<open>default_ai_mode: "local" | "cloud"\<close>\<close>

datatype AiMode = Mode_local | Mode_cloud





record CloudProviderSettings =
  provider_enabled :: bool
  provider_model :: string
  provider_api_base :: "string option"






subsection \<open>The Tauri bridge\<close>

text \<open>The arguments of a command are a JavaScript object literal.\<close>

datatype json =
  JNull | JBool bool | JNum int | JStr string | JArr "json list" | JObj "(string \<times> json) list"

text \<open>
  \<^verbatim>\<open>invoke<T>(cmd, args?)\<close> sends one command to the backend and returns a promise: it
  resolves to a \<^verbatim>\<open>T\<close> (\<open>Inr\<close>) or rejects with the backend's error (\<open>Inl\<close>).
\<close>

type_synonym invoke_call = "string \<times> json option"

type_synonym 'r invoke = "string \<Rightarrow> json option \<Rightarrow> string + 'r"

text \<open>
  \<^verbatim>\<open>
  async function getInvoke() {
    try {
      const module = await import("@tauri-apps/api/core");
      return module.invoke;
    } catch {
      return null;
    }
  }
  \<close>
  The dynamic import is the function's only input: it throws (\<open>Inl\<close>) where the module
  cannot be loaded, and yields the module's \<^verbatim>\<open>invoke\<close> otherwise. The \<^verbatim>\<open>try\<close> covers
  the import alone: whether a backend answers the commands is a matter of \<^verbatim>\<open>invoke\<close>.
\<close>

definition getInvoke :: "string + 'r invoke \<Rightarrow> 'r invoke option" where
  "getInvoke tauri_import = (case tauri_import of Inl err \<Rightarrow> None | Inr invoke \<Rightarrow> Some invoke)"


text \<open>
  An exported function of the wrapper is modelled by the commands it sends, in order,
  and the settlement of the promise it returns.
\<close>

type_synonym 'a api_result = "invoke_call list \<times> (string + 'a)"




text \<open>
  \<^verbatim>\<open>
  export async function queueEmailSync(accountId: string): Promise<void> {
    const invoke = await getInvoke();
    if (!invoke) return;
    await invoke("queue_sync_job", {
      payload: { account_id: accountId, domain: "email", payload: {}, run_after_secs: 0 },
    });
  }
  \<close>
  The awaited promise's value is dropped; its rejection is the function's own.
\<close>

definition queue_sync_job_args :: "string \<Rightarrow> json" where
  "queue_sync_job_args accountId =
     JObj [(''payload'',
            JObj [(''account_id'', JStr accountId),
                  (''domain'', JStr ''email''),
                  (''payload'', JObj []),
                  (''run_after_secs'', JNum 0)])]"

definition queueEmailSync :: "string + 'r invoke \<Rightarrow> string \<Rightarrow> unit api_result" where
  "queueEmailSync tauri_import accountId =
     (case getInvoke tauri_import of
        None \<Rightarrow> ([], Inr ())
      | Some invoke \<Rightarrow>
          ([(''queue_sync_job'', Some (queue_sync_job_args accountId))],
           (case invoke ''queue_sync_job'' (Some (queue_sync_job_args accountId)) of
              Inl err \<Rightarrow> Inl err
            | Inr r \<Rightarrow> Inr ())))"


section \<open>The storage migration (crates/aether-storage/migrations/0001_init.sql)\<close>

text \<open>
  The migration is a script of \<^verbatim>\<open>CREATE TABLE IF NOT EXISTS\<close> and
  \<^verbatim>\<open>CREATE INDEX IF NOT EXISTS\<close> statements, executed in order against the database's
  schema. A statement leaves the schema alone when an object of its name exists already;
  an index on a table or a column that does not exist is an error, and stops the script.
\<close>

datatype sql_type = TEXT | INTEGER | BLOB

record sql_column =
  col_name :: string
  col_type :: sql_type
  col_not_null :: bool
  col_primary_key :: bool

datatype table_constraint =
  Unique "string list"
| ForeignKeyCascade string string string

datatype key_order = Asc | Desc

record sql_table =
  tbl_name :: string
  tbl_columns :: "sql_column list"
  tbl_constraints :: "table_constraint list"

record sql_index =
  idx_name :: string
  idx_table :: string
  idx_keys :: "(string \<times> key_order) list"

record sql_schema =
  tables :: "sql_table list"
  indexes :: "sql_index list"

datatype sql_stmt =
  CreateTableIfNotExists string "sql_column list" "table_constraint list"
| CreateIndexIfNotExists string string "(string \<times> key_order) list"

datatype sql_error = NoSuchTable string | NoSuchColumn string

definition empty_schema :: sql_schema where
  "empty_schema = \<lparr>tables = [], indexes = []\<rparr>"

definition find_table :: "sql_schema \<Rightarrow> string \<Rightarrow> sql_table option" where
  "find_table s n = find (\<lambda>t. tbl_name t = n) (tables s)"

definition find_index :: "sql_schema \<Rightarrow> string \<Rightarrow> sql_index option" where
  "find_index s n = find (\<lambda>i. idx_name i = n) (indexes s)"

fun exec_stmt :: "sql_stmt \<Rightarrow> sql_schema \<Rightarrow> sql_error + sql_schema" where
  "exec_stmt (CreateTableIfNotExists n cols cons) s =
     (case find_table s n of
        Some t \<Rightarrow> Inr s
      | None \<Rightarrow>
          Inr (s\<lparr>tables := tables s @
                 [\<lparr>tbl_name = n, tbl_columns = cols, tbl_constraints = cons\<rparr>]\<rparr>))"
| "exec_stmt (CreateIndexIfNotExists n tn keys) s =
     (case find_index s n of
        Some i \<Rightarrow> Inr s
      | None \<Rightarrow>
          (case find_table s tn of
             None \<Rightarrow> Inl (NoSuchTable tn)
           | Some t \<Rightarrow>
               (case find (\<lambda>k. k \<notin> set (map col_name (tbl_columns t))) (map fst keys) of
                  Some k \<Rightarrow> Inl (NoSuchColumn k)
                | None \<Rightarrow>
                    Inr (s\<lparr>indexes := indexes s @
                           [\<lparr>idx_name = n, idx_table = tn, idx_keys = keys\<rparr>]\<rparr>))))"

fun run_migration :: "sql_stmt list \<Rightarrow> sql_schema \<Rightarrow> sql_error + sql_schema" where
  "run_migration [] s = Inr s"
| "run_migration (st # sts) s =
     (case exec_stmt st s of Inl e \<Rightarrow> Inl e | Inr s' \<Rightarrow> run_migration sts s')"

text \<open>Column declarations as the script writes them.\<close>

definition text_pk :: "string \<Rightarrow> sql_column" where
  "text_pk n = \<lparr>col_name = n, col_type = TEXT, col_not_null = False, col_primary_key = True\<rparr>"

definition text_nn :: "string \<Rightarrow> sql_column" where
  "text_nn n = \<lparr>col_name = n, col_type = TEXT, col_not_null = True, col_primary_key = False\<rparr>"

definition text_null :: "string \<Rightarrow> sql_column" where
  "text_null n = \<lparr>col_name = n, col_type = TEXT, col_not_null = False, col_primary_key = False\<rparr>"

definition integer_nn :: "string \<Rightarrow> sql_column" where
  "integer_nn n =
     \<lparr>col_name = n, col_type = INTEGER, col_not_null = True, col_primary_key = False\<rparr>"

definition create_accounts :: sql_stmt where
  "create_accounts = CreateTableIfNotExists ''accounts''
     [text_pk ''id'', text_nn ''provider'', text_nn ''protocols_json'', text_nn ''display_name'',
      text_nn ''email_address'', text_null ''oauth_profile_json'', text_nn ''created_at'',
      text_nn ''updated_at'']
     []"

definition create_account_protocol_settings :: sql_stmt where
  "create_account_protocol_settings = CreateTableIfNotExists ''account_protocol_settings''
     [text_pk ''account_id'', text_nn ''settings_json'', text_nn ''updated_at'']
     [ForeignKeyCascade ''account_id'' ''accounts'' ''id'']"

definition create_mail_messages :: sql_stmt where
  "create_mail_messages = CreateTableIfNotExists ''mail_messages''
     [text_pk ''id'', text_nn ''account_id'', text_nn ''remote_id'', text_nn ''thread_id'',
      text_nn ''folder_path'', text_nn ''from_json'', text_nn ''to_json'', text_nn ''cc_json'',
      text_nn ''bcc_json'', text_nn ''reply_to_json'', text_nn ''subject'', text_nn ''preview'',
      text_null ''body_text'', text_null ''body_html'', text_nn ''flags_json'',
      text_nn ''labels_json'', text_nn ''headers_json'', text_nn ''attachments_json'',
      text_null ''sent_at'', text_nn ''received_at'', text_nn ''created_at'',
      text_nn ''updated_at'']
     [Unique [''account_id'', ''remote_id'']]"

definition create_calendar_events :: sql_stmt where
  "create_calendar_events = CreateTableIfNotExists ''calendar_events''
     [text_pk ''id'', text_nn ''account_id'', text_nn ''calendar_id'', text_nn ''remote_id'',
      text_nn ''title'', text_null ''description'', text_null ''location'', text_null ''timezone'',
      text_nn ''starts_at'', text_nn ''ends_at'', integer_nn ''all_day'',
      text_null ''recurrence_rule'', text_nn ''attendees_json'', text_null ''organizer'',
      text_nn ''alarms_json'', text_nn ''updated_at'']
     [Unique [''account_id'', ''calendar_id'', ''remote_id'']]"

definition create_reminder_tasks :: sql_stmt where
  "create_reminder_tasks = CreateTableIfNotExists ''reminder_tasks''
     [text_pk ''id'', text_nn ''account_id'', text_nn ''list_id'', text_null ''remote_id'',
      text_nn ''title'', text_null ''notes'', text_null ''due_at'', text_null ''completed_at'',
      text_nn ''priority'', text_nn ''status'', text_null ''repeat_rule'', text_null ''parent_id'',
      text_null ''snoozed_until'', text_nn ''created_at'', text_nn ''updated_at'']
     []"

text \<open>
  \<^verbatim>\<open>
  CREATE TABLE IF NOT EXISTS sync_queue (
    id TEXT PRIMARY KEY,
    account_id TEXT NOT NULL,
    domain TEXT NOT NULL,
    status TEXT NOT NULL,
    payload_json TEXT NOT NULL,
    attempt_count INTEGER NOT NULL,
    max_attempts INTEGER NOT NULL,
    run_after TEXT NOT NULL,
    last_error TEXT,
    created_at TEXT NOT NULL,
    updated_at TEXT NOT NULL
  );
  CREATE INDEX IF NOT EXISTS idx_sync_queue_next ON sync_queue(status, run_after);
  \<close>
\<close>

definition create_sync_queue :: sql_stmt where
  "create_sync_queue = CreateTableIfNotExists ''sync_queue''
     [text_pk ''id'', text_nn ''account_id'', text_nn ''domain'', text_nn ''status'',
      text_nn ''payload_json'', integer_nn ''attempt_count'', integer_nn ''max_attempts'',
      text_nn ''run_after'', text_null ''last_error'', text_nn ''created_at'',
      text_nn ''updated_at'']
     []"

definition create_idx_sync_queue_next :: sql_stmt where
  "create_idx_sync_queue_next =
     CreateIndexIfNotExists ''idx_sync_queue_next'' ''sync_queue''
       [(''status'', Asc), (''run_after'', Asc)]"

definition migration_0001_init :: "sql_stmt list" where
  "migration_0001_init =
     [create_accounts,
      create_account_protocol_settings,
      create_mail_messages,
      CreateIndexIfNotExists ''idx_mail_messages_account_folder'' ''mail_messages''
        [(''account_id'', Asc), (''folder_path'', Asc)],
      CreateIndexIfNotExists ''idx_mail_messages_thread'' ''mail_messages'' [(''thread_id'', Asc)],
      CreateIndexIfNotExists ''idx_mail_messages_received'' ''mail_messages''
        [(''received_at'', Desc)],
      create_calendar_events,
      create_reminder_tasks,
      CreateIndexIfNotExists ''idx_reminder_tasks_due'' ''reminder_tasks'' [(''due_at'', Asc)],
      create_sync_queue,
      create_idx_sync_queue_next]"

text \<open>What a client of the migrated database reads off the schema.\<close>

definition table_column_names :: "sql_error + sql_schema \<Rightarrow> string \<Rightarrow> string list option" where
  "table_column_names r n =
     (case r of
        Inl e \<Rightarrow> None
      | Inr s \<Rightarrow> map_option (\<lambda>t. map col_name (tbl_columns t)) (find_table s n))"

definition table_column :: "sql_error + sql_schema \<Rightarrow> string \<Rightarrow> string \<Rightarrow> sql_column option" where
  "table_column r n c =
     (case r of
        Inl e \<Rightarrow> None
      | Inr s \<Rightarrow>
          (case find_table s n of
             None \<Rightarrow> None
           | Some t \<Rightarrow> find (\<lambda>col. col_name col = c) (tbl_columns t)))"

definition indexes_on :: "sql_error + sql_schema \<Rightarrow> string \<Rightarrow> sql_index list" where
  "indexes_on r n =
     (case r of Inl e \<Rightarrow> [] | Inr s \<Rightarrow> filter (\<lambda>i. idx_table i = n) (indexes s))"

section \<open>The sync job scheduler (Rust backend, not among the sources)\<close>

text \<open>
  The job store, the dispatcher and \<^verbatim>\<open>queue_job\<close> live in the Rust crates behind the Tauri
  commands \<^verbatim>\<open>queue_sync_job\<close> and \<^verbatim>\<open>run_sync_queue\<close>; of them the sources hold the
  table \<^verbatim>\<open>sync_queue\<close> only. The definitions of this section follow the specification's
  sections 3, 4.1, 4.3, 4.6 and 6. Timestamps are seconds, as natural numbers.
\<close>

text \<open>Modelled from the spec: the closed variant of job domains (section 3).\<close>

datatype Domain = Email | Calendar | Tasks

text \<open>Modelled from the spec: the four job states (section 3, section 4.3).\<close>

datatype JobStatus = Pending | Running | Succeeded | DeadLetter

text \<open>
  Modelled from the spec: the SyncJob of section 3, field by field; its columns are those
  of the table \<^verbatim>\<open>sync_queue\<close>. The opaque identifier is a number drawn from a counter.
\<close>

record SyncJob =
  job_id :: nat
  account_id :: string
  domain :: Domain
  status :: JobStatus
  payload :: json
  attempt_count :: nat
  max_attempts :: nat
  run_after :: nat
  last_error :: "string option"
  created_at :: nat
  updated_at :: nat

text \<open>Modelled from the spec: the Job Store, a table of jobs in insertion order.\<close>

record JobStore =
  jobs :: "SyncJob list"
  next_id :: nat

text \<open>
  Modelled from the spec: the configuration the scheduler reads. The configured default
  of \<^verbatim>\<open>max_attempts\<close>, the global slot count (\<^verbatim>\<open>sync.max_parallel_jobs\<close>) and the
  Backoff Policy's \<^verbatim>\<open>next_run_after\<close>, taken as a parameter.
\<close>

record SchedulerConfig =
  default_max_attempts :: nat
  global_slots :: nat
  next_run_after :: "nat \<Rightarrow> nat"

text \<open>Modelled from the spec: the store before any job is enqueued.\<close>

definition empty_store :: JobStore where
  "empty_store = \<lparr>jobs = [], next_id = 0\<rparr>"

text \<open>
  Modelled from the spec: the job an identifier denotes, the first row of the table that
  carries it.
\<close>

definition lookup_job :: "JobStore \<Rightarrow> nat \<Rightarrow> SyncJob option" where
  "lookup_job st i = find (\<lambda>j. job_id j = i) (jobs st)"

text \<open>
  Modelled from the spec: \<^verbatim>\<open>enqueue(account_id, domain, payload, run_after) -> job_id\<close>
  of section 4.1. It inserts a new job with status pending, attempt count 0 and the
  configured default of \<^verbatim>\<open>max_attempts\<close>; nothing is deduplicated.
\<close>

definition enqueue ::
  "SchedulerConfig \<Rightarrow> nat \<Rightarrow> string \<Rightarrow> Domain \<Rightarrow> json \<Rightarrow> nat \<Rightarrow> JobStore \<Rightarrow> nat \<times> JobStore" where
  "enqueue cfg now acct dmn pl ra st =
     (next_id st,
      st\<lparr>jobs := jobs st @
            [\<lparr>job_id = next_id st, account_id = acct, domain = dmn, status = Pending,
              payload = pl, attempt_count = 0, max_attempts = default_max_attempts cfg,
              run_after = ra, last_error = None, created_at = now, updated_at = now\<rparr>],
         next_id := Suc (next_id st)\<rparr>)"

text \<open>
  Modelled from the spec: a job is eligible for dispatch iff its status is pending and
  \<^verbatim>\<open>run_after <= now\<close> (section 3).
\<close>

definition is_due :: "nat \<Rightarrow> SyncJob \<Rightarrow> bool" where
  "is_due now j \<longleftrightarrow> status j = Pending \<and> run_after j \<le> now"

text \<open>
  Modelled from the spec: the transition pending to running that a claim makes
  (section 4.3).
\<close>

definition mark_running :: "nat \<Rightarrow> SyncJob \<Rightarrow> SyncJob" where
  "mark_running now j = j\<lparr>status := Running, updated_at := now\<rparr>"

text \<open>
  Modelled from the spec: \<^verbatim>\<open>claim_due(now, limit)\<close> of section 4.1. It selects up to
  \<^verbatim>\<open>limit\<close> due jobs, oldest \<^verbatim>\<open>run_after\<close> first and ties by \<^verbatim>\<open>created_at\<close>, moves
  each to running and returns them. One call is one step of the store.
\<close>

definition claim_due :: "nat \<Rightarrow> nat \<Rightarrow> JobStore \<Rightarrow> SyncJob list \<times> JobStore" where
  "claim_due now limit st =
     (let selected =
            take limit (sort_key (\<lambda>j. (run_after j, created_at j)) (filter (is_due now) (jobs st)));
          ids = map job_id selected
      in (map (mark_running now) selected,
          st\<lparr>jobs := map (\<lambda>j. if is_due now j \<and> job_id j \<in> set ids then mark_running now j else j)
                        (jobs st)\<rparr>))"

text \<open>
  Modelled from the spec: the outcome of one attempt (section 4.5): success with an item
  count, a transient failure or a permanent failure, each with its message.
\<close>

datatype ExecutionOutcome = Success nat | TransientFailure string | PermanentFailure string

text \<open>
  Modelled from the spec: the transition rules of section 4.3. Every outcome counts the
  attempt. A transient failure below the ceiling (\<^verbatim>\<open>attempt_count + 1 < max_attempts\<close>)
  returns the job to pending with \<^verbatim>\<open>run_after = now + next_run_after(attempt_count)\<close>;
  at the ceiling, and on a permanent failure, the job is dead-lettered.
\<close>

definition apply_outcome :: "SchedulerConfig \<Rightarrow> nat \<Rightarrow> ExecutionOutcome \<Rightarrow> SyncJob \<Rightarrow> SyncJob" where
  "apply_outcome cfg now outcome j =
     (case outcome of
        Success n \<Rightarrow>
          j\<lparr>status := Succeeded, attempt_count := Suc (attempt_count j), last_error := None,
            updated_at := now\<rparr>
      | TransientFailure e \<Rightarrow>
          (if Suc (attempt_count j) < max_attempts j
           then j\<lparr>status := Pending, attempt_count := Suc (attempt_count j),
                  run_after := now + next_run_after cfg (Suc (attempt_count j)),
                  last_error := Some e, updated_at := now\<rparr>
           else j\<lparr>status := DeadLetter, attempt_count := Suc (attempt_count j),
                  last_error := Some e, updated_at := now\<rparr>)
      | PermanentFailure e \<Rightarrow>
          j\<lparr>status := DeadLetter, attempt_count := Suc (attempt_count j),
            last_error := Some e, updated_at := now\<rparr>)"

text \<open>
  Modelled from the spec: \<^verbatim>\<open>complete(job_id, outcome)\<close> of section 4.1. The state
  machine of section 4.3 has its outcome transitions leave the state running only, and
  permits none out of dead-letter, so a job that is not running is left as it is.
\<close>

definition complete ::
  "SchedulerConfig \<Rightarrow> nat \<Rightarrow> nat \<Rightarrow> ExecutionOutcome \<Rightarrow> JobStore \<Rightarrow> JobStore" where
  "complete cfg now i outcome st =
     st\<lparr>jobs := map (\<lambda>j. if job_id j = i \<and> status j = Running
                          then apply_outcome cfg now outcome j else j) (jobs st)\<rparr>"

text \<open>
  Modelled from the spec: the operations through which all mutations of the store go
  (section 5), each stamped with the time of the call.
\<close>

datatype store_op =
  Enqueue string Domain json nat
| ClaimDue nat
| Complete nat ExecutionOutcome

text \<open>Modelled from the spec: one operation applied to the store.\<close>

fun apply_op :: "SchedulerConfig \<Rightarrow> JobStore \<Rightarrow> nat \<times> store_op \<Rightarrow> JobStore" where
  "apply_op cfg st (now, Enqueue acct dmn pl ra) = snd (enqueue cfg now acct dmn pl ra st)"
| "apply_op cfg st (now, ClaimDue limit) = snd (claim_due now limit st)"
| "apply_op cfg st (now, Complete i outcome) = complete cfg now i outcome st"

text \<open>Modelled from the spec: a sequence of operations, applied in order.\<close>

definition run_ops :: "SchedulerConfig \<Rightarrow> JobStore \<Rightarrow> (nat \<times> store_op) list \<Rightarrow> JobStore" where
  "run_ops cfg st ops = foldl (apply_op cfg) st ops"

text \<open>Modelled from the spec: the summary of a run before any outcome is counted.\<close>

definition zero_summary :: SyncRunSummary where
  "zero_summary = \<lparr>completed_jobs = 0, failed_jobs = 0, retried_jobs = 0,
     email_messages_synced = 0, calendar_events_synced = 0, tasks_synced = 0\<rparr>"

text \<open>
  Modelled from the spec: the per-domain item counters, summed from the collaborators'
  results (section 3).
\<close>

definition add_items :: "Domain \<Rightarrow> nat \<Rightarrow> SyncRunSummary \<Rightarrow> SyncRunSummary" where
  "add_items dmn n acc =
     (case dmn of
        Email \<Rightarrow> acc\<lparr>email_messages_synced := email_messages_synced acc + int n\<rparr>
      | Calendar \<Rightarrow> acc\<lparr>calendar_events_synced := calendar_events_synced acc + int n\<rparr>
      | Tasks \<Rightarrow> acc\<lparr>tasks_synced := tasks_synced acc + int n\<rparr>)"

text \<open>
  Modelled from the spec: the Run Summary Aggregator (section 3, section 4.3). A success
  counts as completed and adds its items to the counter of the job's domain; a transient
  failure below the ceiling counts as retried; every dead-lettering counts as failed.
\<close>

definition record_outcome :: "SyncJob \<Rightarrow> ExecutionOutcome \<Rightarrow> SyncRunSummary \<Rightarrow> SyncRunSummary" where
  "record_outcome j outcome acc =
     (case outcome of
        Success n \<Rightarrow> add_items (domain j) n (acc\<lparr>completed_jobs := completed_jobs acc + 1\<rparr>)
      | TransientFailure e \<Rightarrow>
          (if Suc (attempt_count j) < max_attempts j
           then acc\<lparr>retried_jobs := retried_jobs acc + 1\<rparr>
           else acc\<lparr>failed_jobs := failed_jobs acc + 1\<rparr>)
      | PermanentFailure e \<Rightarrow> acc\<lparr>failed_jobs := failed_jobs acc + 1\<rparr>)"

text \<open>
  Modelled from the spec: the batch step of section 4.6. Every claimed job is executed
  (the Job Executor \<open>exec\<close> is a parameter) and its outcome applied to the store and the
  summary.
\<close>

fun run_batch ::
  "SchedulerConfig \<Rightarrow> (SyncJob \<Rightarrow> ExecutionOutcome) \<Rightarrow> nat \<Rightarrow> SyncJob list \<Rightarrow>
   JobStore \<times> SyncRunSummary \<Rightarrow> JobStore \<times> SyncRunSummary" where
  "run_batch cfg exec now [] (st, acc) = (st, acc)"
| "run_batch cfg exec now (j # js) (st, acc) =
     run_batch cfg exec now js
       (complete cfg now (job_id j) (exec j) st, record_outcome j (exec j) acc)"

text \<open>
  Modelled from the spec: the run of section 4.6. While the governor has slots and the
  store has due jobs: claim up to the slot count, execute the batch, apply the outcomes,
  release the slots, repeat; the run ends when a claim returns empty or no slot remains.
  All slots are free again at the head of the loop. The governor's per-account and
  per-domain budgets, which only withhold due jobs from a batch, are left out.
\<close>

partial_function (option) dispatch_loop ::
  "SchedulerConfig \<Rightarrow> (SyncJob \<Rightarrow> ExecutionOutcome) \<Rightarrow> nat \<Rightarrow> JobStore \<Rightarrow> SyncRunSummary \<Rightarrow>
   (JobStore \<times> SyncRunSummary) option" where
  "dispatch_loop cfg exec now st acc =
     (if global_slots cfg = 0 then Some (st, acc)
      else (case claim_due now (global_slots cfg) st of
              (batch, st1) \<Rightarrow>
                if batch = [] then Some (st1, acc)
                else (case run_batch cfg exec now batch (st1, acc) of
                        (st2, acc2) \<Rightarrow> dispatch_loop cfg exec now st2 acc2)))"

declare dispatch_loop.simps [code]

text \<open>
  Modelled from the spec: \<^verbatim>\<open>run_queue() -> SyncRunSummary\<close> of section 6, one pass of
  the loop from an all-zero summary.
\<close>

definition run_queue ::
  "SchedulerConfig \<Rightarrow> (SyncJob \<Rightarrow> ExecutionOutcome) \<Rightarrow> nat \<Rightarrow> JobStore \<Rightarrow>
   (JobStore \<times> SyncRunSummary) option" where
  "run_queue cfg exec now st = dispatch_loop cfg exec now st zero_summary"

text \<open>
  Modelled from the spec: \<^verbatim>\<open>queue_job(account_id, domain, payload,
  run_after_offset_secs=0) -> job_id\<close> of section 6. It fails with \<^verbatim>\<open>InvalidAccount\<close>
  when the account id resolves to no account, and enqueues the job otherwise.
\<close>

datatype queue_error = InvalidAccount

text \<open>
  Modelled from the spec: \<^verbatim>\<open>queue_job\<close> itself; an account id resolves when an account
  of the list carries it, and a missing offset is 0.
\<close>

definition queue_job ::
  "SchedulerConfig \<Rightarrow> Account list \<Rightarrow> nat \<Rightarrow> JobStore \<Rightarrow> string \<Rightarrow> Domain \<Rightarrow> json \<Rightarrow> nat option \<Rightarrow>
   queue_error + nat \<times> JobStore" where
  "queue_job cfg accts now st acct dmn pl run_after_offset_secs =
     (let offset = (case run_after_offset_secs of None \<Rightarrow> 0 | Some secs \<Rightarrow> secs)
      in if acct \<notin> set (map acc_id accts) then Inl InvalidAccount
         else Inr (enqueue cfg now acct dmn pl (now + offset) st))"

subsection \<open>Invariants of the store\<close>

text \<open>
  A job never exceeds its ceiling, and has an attempt left while it is pending or
  running; the identifiers in use lie below the counter.
\<close>

definition job_ok :: "SyncJob \<Rightarrow> bool" where
  "job_ok j \<longleftrightarrow>
     attempt_count j \<le> max_attempts j \<and>
     (status j = Pending \<or> status j = Running \<longrightarrow> attempt_count j < max_attempts j)"

definition store_ok :: "JobStore \<Rightarrow> bool" where
  "store_ok st \<longleftrightarrow> (\<forall>j \<in> set (jobs st). job_ok j \<and> job_id j < next_id st)"

subsection \<open>The work left in the store\<close>

text \<open>
  A measure of what a run can still do to a job: nothing once it has succeeded or is
  dead-lettered, and less with every claim and every counted attempt.
\<close>

definition job_weight :: "SyncJob \<Rightarrow> nat" where
  "job_weight j =
     (case status j of
        Pending \<Rightarrow> 2 * (max_attempts j - attempt_count j) + 2
      | Running \<Rightarrow> 2 * (max_attempts j - attempt_count j) + 1
      | Succeeded \<Rightarrow> 0
      | DeadLetter \<Rightarrow> 0)"

definition pending_work :: "JobStore \<Rightarrow> nat" where
  "pending_work st = sum_list (map job_weight (jobs st))"

subsection \<open>Example runs\<close>

definition example_cfg :: SchedulerConfig where
  "example_cfg = \<lparr>default_max_attempts = 2, global_slots = 4, next_run_after = (\<lambda>n. 30 * 2 ^ n)\<rparr>"

definition example_ops :: "(nat \<times> store_op) list" where
  "example_ops =
     [(0, Enqueue ''acct-a'' Email (JObj []) 0),
      (5, ClaimDue 4),
      (6, Complete 0 (TransientFailure ''timeout'')),
      (100, ClaimDue 4),
      (101, Complete 0 (TransientFailure ''timeout''))]"

definition later_ops :: "(nat \<times> store_op) list" where
  "later_ops =
     [(200, ClaimDue 3),
      (201, Complete 0 (Success 4)),
      (202, Complete 0 (TransientFailure ''again'')),
      (300, Enqueue ''acct-b'' Tasks JNull 0)]"

definition example_account :: Account where
  "example_account =
     \<lparr>acc_id = ''acct-a'', acc_provider = Generic, acc_protocols = [''imap'', ''smtp''],
      acc_display_name = ''A'', acc_email_address = ''a@example.org'', acc_oauth_profile = None,
      acc_created_at = ''2026-01-01T00:00:00Z'', acc_updated_at = ''2026-01-01T00:00:00Z''\<rparr>"

section \<open>Properties of the sync summary's rendering\<close>

lemma summarizeSync_cases:
  "summarizeSync s =
     (if all_counters_nonpositive s
      then number_to_string (completed_jobs s) @ '' completed jobs''
      else join_str '' | '' (positive_descriptions s))"
  by (simp add: summarizeSync_def push_if_def positive_descriptions_def counter_labels_def
      all_counters_nonpositive_def Let_def)

lemma join_str_ends_with_last:
  "parts \<noteq> [] \<Longrightarrow> \<exists>p. join_str sep parts = p @ last parts"
proof (induction sep parts rule: join_str.induct)
  case (3 sep x y ys)
  then obtain p where "join_str sep (y # ys) = p @ last (y # ys)" by auto
  then have "join_str sep (x # y # ys) = (x @ sep @ p) @ last (x # y # ys)" by simp
  then show ?case by blast
qed auto

lemma last_map_filter:
  assumes "filter P xs \<noteq> []"
  shows "\<exists>x \<in> set xs. P x \<and> last (map f (filter P xs)) = f x"
proof -
  from assms have "last (filter P xs) \<in> set (filter P xs)" by (rule last_in_set)
  moreover from assms have "last (map f (filter P xs)) = f (last (filter P xs))"
    by (rule last_map)
  ultimately show ?thesis by auto
qed

lemma label_of_counter:
  "x \<in> set (counter_labels s) \<Longrightarrow>
   snd x \<in> {'' email items'', '' calendar events'', '' tasks'', '' retried'', '' failed''}"
  unfolding counter_labels_def by auto

lemma some_counter_positive:
  assumes "\<not> all_counters_nonpositive s"
  shows "filter (\<lambda>(v, l). v > 0) (counter_labels s) \<noteq> []"
proof -
  from assms have "\<exists>x \<in> set (counter_labels s). fst x > 0"
    unfolding all_counters_nonpositive_def counter_labels_def by auto
  then show ?thesis
    by (simp only: filter_empty_conv split_beta) blast
qed

lemma last_positive_description:
  assumes "filter (\<lambda>(v, l). v > 0) (counter_labels s) \<noteq> []"
  shows "\<exists>v l. last (positive_descriptions s) = number_to_string v @ l \<and>
           l \<in> {'' email items'', '' calendar events'', '' tasks'', '' retried'', '' failed''}"
proof -
  from last_map_filter [OF assms, of "\<lambda>(v, l). number_to_string v @ l"]
  obtain x where x: "x \<in> set (counter_labels s)"
    and lx: "last (positive_descriptions s) = (\<lambda>(v, l). number_to_string v @ l) x"
    unfolding positive_descriptions_def by blast
  from lx have "last (positive_descriptions s) = number_to_string (fst x) @ snd x"
    by (simp only: split_beta)
  with label_of_counter [OF x] show ?thesis by blast
qed

text \<open>No label ends the way \<open>'' completed jobs''\<close> does: read both from the right.\<close>

lemma label_not_completed_jobs:
  assumes "l \<in> {'' email items'', '' calendar events'', '' tasks'', '' retried'', '' failed''}"
  shows "p @ l \<noteq> q @ '' completed jobs''"
proof
  assume "p @ l = q @ '' completed jobs''"
  then have "rev (p @ l) = rev (q @ '' completed jobs'')" by simp
  with assms show False by auto
qed

lemma joined_not_completed_jobs:
  assumes "\<not> all_counters_nonpositive s"
  shows "join_str '' | '' (positive_descriptions s) \<noteq> number_to_string c @ '' completed jobs''"
proof -
  from assms have kept: "filter (\<lambda>(v, l). v > 0) (counter_labels s) \<noteq> []"
    by (rule some_counter_positive)
  then have "positive_descriptions s \<noteq> []"
    by (simp add: positive_descriptions_def)
  then obtain p where
    p: "join_str '' | '' (positive_descriptions s) = p @ last (positive_descriptions s)"
    using join_str_ends_with_last by blast
  from last_positive_description [OF kept] obtain v l where
    vl: "last (positive_descriptions s) = number_to_string v @ l"
    and l: "l \<in> {'' email items'', '' calendar events'', '' tasks'', '' retried'', '' failed''}"
    by blast
  have "(p @ number_to_string v) @ l \<noteq> number_to_string c @ '' completed jobs''"
    using l by (rule label_not_completed_jobs)
  with p vl show ?thesis by simp
qed

text \<open>
  Claim C10. For every summary, \<open>summarizeSync\<close> returns the completed-jobs sentence
  exactly when the five counters (email items, calendar events, tasks, retried, failed)
  are all at most zero; otherwise it returns the descriptions of exactly the counters
  above zero, in that fixed order, joined by \<open>'' | ''\<close>.
\<close>

theorem summarizeSync_spec:
  "(summarizeSync s = number_to_string (completed_jobs s) @ '' completed jobs''
      \<longleftrightarrow> all_counters_nonpositive s) \<and>
   (\<not> all_counters_nonpositive s \<longrightarrow>
      summarizeSync s = join_str '' | '' (positive_descriptions s))"
proof (cases "all_counters_nonpositive s")
  case True
  then show ?thesis by (simp only: summarizeSync_cases if_True simp_thms)
next
  case False
  with joined_not_completed_jobs [OF False, of "completed_jobs s"]
  show ?thesis by (simp only: summarizeSync_cases if_False simp_thms)
qed

theorem summarizeSync_spec_witness:
  "\<not> all_counters_nonpositive example_summary \<and>
   positive_descriptions example_summary = [''120 email items'', ''7 tasks'', ''2 retried''] \<and>
   summarizeSync example_summary = ''120 email items | 7 tasks | 2 retried'' \<and>
   summarizeSync example_summary \<noteq> ''3 completed jobs'' \<and>
   all_counters_nonpositive quiet_summary \<and>
   summarizeSync quiet_summary = ''3 completed jobs''"
proof -
  have pos: "\<not> all_counters_nonpositive example_summary"
    by (simp add: all_counters_nonpositive_def example_summary_def)
  have descr:
    "positive_descriptions example_summary = [''120 email items'', ''7 tasks'', ''2 retried'']"
    by code_simp
  have joined:
    "join_str '' | '' [''120 email items'', ''7 tasks'', ''2 retried''] =
       ''120 email items | 7 tasks | 2 retried''"
    by simp
  have three:
    "number_to_string (completed_jobs example_summary) @ '' completed jobs'' =
       ''3 completed jobs''"
    by code_simp
  from summarizeSync_spec [of example_summary] pos
  have eq: "summarizeSync example_summary =
              join_str '' | '' (positive_descriptions example_summary)"
    and ne: "summarizeSync example_summary \<noteq>
               number_to_string (completed_jobs example_summary) @ '' completed jobs''"
    by blast+
  have loud: "summarizeSync example_summary = ''120 email items | 7 tasks | 2 retried''"
    by (rule eq [unfolded descr joined])
  have not_three: "summarizeSync example_summary \<noteq> ''3 completed jobs''"
    by (rule ne [unfolded three])
  have nonpos: "all_counters_nonpositive quiet_summary"
    by (simp add: all_counters_nonpositive_def quiet_summary_def)
  have three': "number_to_string (completed_jobs quiet_summary) @ '' completed jobs'' =
       ''3 completed jobs''"
    by code_simp
  from summarizeSync_spec [of quiet_summary] nonpos
  have "summarizeSync quiet_summary =
          number_to_string (completed_jobs quiet_summary) @ '' completed jobs''"
    by blast
  then have quiet: "summarizeSync quiet_summary = ''3 completed jobs''"
    by (simp only: three')
  from pos descr loud not_three nonpos quiet show ?thesis by blast
qed

section \<open>Properties of the API wrapper\<close>



section \<open>Properties of the migrated schema\<close>

lemmas migration_0001_defs =
  migration_0001_init_def create_accounts_def create_account_protocol_settings_def
  create_mail_messages_def create_calendar_events_def create_reminder_tasks_def
  create_sync_queue_def create_idx_sync_queue_next_def empty_schema_def
  find_table_def find_index_def text_pk_def text_nn_def text_null_def integer_nn_def

text \<open>
  Claim C5, as the script has it. On a fresh database the migration succeeds, and the
  durable queue table \<open>sync_queue\<close> has exactly the columns id, account_id, domain, status,
  payload_json, attempt_count, max_attempts, run_after, last_error, created_at and
  updated_at, in this order; the payload column is named \<open>payload_json\<close> and holds
  non-null text.
\<close>

theorem sync_queue_columns:
  "table_column_names (run_migration migration_0001_init empty_schema) ''sync_queue'' =
     Some [''id'', ''account_id'', ''domain'', ''status'', ''payload_json'', ''attempt_count'',
           ''max_attempts'', ''run_after'', ''last_error'', ''created_at'', ''updated_at''] \<and>
   table_column (run_migration migration_0001_init empty_schema) ''sync_queue'' ''payload_json'' =
     Some \<lparr>col_name = ''payload_json'', col_type = TEXT, col_not_null = True,
            col_primary_key = False\<rparr>"
  by (simp add: table_column_names_def table_column_def migration_0001_defs)

text \<open>
  Claim C5, as stated, asks for a column named \<open>payload\<close>: the table has none, and its
  columns are not the list of the claim.
\<close>

theorem sync_queue_columns_counterexample:
  "table_column (run_migration migration_0001_init empty_schema) ''sync_queue'' ''payload'' = None \<and>
   table_column_names (run_migration migration_0001_init empty_schema) ''sync_queue'' \<noteq>
     Some [''id'', ''account_id'', ''domain'', ''status'', ''payload'', ''attempt_count'',
           ''max_attempts'', ''run_after'', ''last_error'', ''created_at'', ''updated_at'']"
  by (simp add: table_column_names_def table_column_def migration_0001_defs)

text \<open>
  Claim C6. The migrated schema has one index on \<open>sync_queue\<close>, \<open>idx_sync_queue_next\<close>,
  keyed by (status, run_after): the two columns a due-job lookup tests, the status
  compared for equality first and the time for a range second. Both are columns of the
  table.
\<close>

theorem sync_queue_due_index:
  "indexes_on (run_migration migration_0001_init empty_schema) ''sync_queue'' =
     [\<lparr>idx_name = ''idx_sync_queue_next'', idx_table = ''sync_queue'',
       idx_keys = [(''status'', Asc), (''run_after'', Asc)]\<rparr>] \<and>
   map_option col_name
     (table_column (run_migration migration_0001_init empty_schema) ''sync_queue'' ''status'') =
     Some ''status'' \<and>
   map_option col_name
     (table_column (run_migration migration_0001_init empty_schema) ''sync_queue'' ''run_after'') =
     Some ''run_after''"
  by (simp add: indexes_on_def table_column_def migration_0001_defs)

section \<open>Properties of the job store\<close>

subsection \<open>One job under one transition\<close>

lemma job_ok_mark_running: "job_ok j \<Longrightarrow> is_due now j \<Longrightarrow> job_ok (mark_running now j)"
  by (simp add: job_ok_def mark_running_def is_due_def)

lemma job_ok_apply_outcome:
  "job_ok j \<Longrightarrow> status j = Running \<Longrightarrow> job_ok (apply_outcome cfg now outcome j)"
  by (cases outcome) (auto simp: job_ok_def apply_outcome_def)

lemma job_id_mark_running: "job_id (mark_running now j) = job_id j"
  by (simp add: mark_running_def)

lemma job_id_apply_outcome: "job_id (apply_outcome cfg now outcome j) = job_id j"
  by (cases outcome) (simp_all add: apply_outcome_def)

lemma attempt_count_mark_running: "attempt_count (mark_running now j) = attempt_count j"
  by (simp add: mark_running_def)

lemma attempt_count_apply_outcome:
  "attempt_count (apply_outcome cfg now outcome j) = Suc (attempt_count j)"
  by (cases outcome) (simp_all add: apply_outcome_def)

subsection \<open>The table under one operation\<close>

lemma jobs_enqueue:
  "jobs (snd (enqueue cfg now acct dmn pl ra st)) =
     jobs st @ [\<lparr>job_id = next_id st, account_id = acct, domain = dmn, status = Pending,
              payload = pl, attempt_count = 0, max_attempts = default_max_attempts cfg,
              run_after = ra, last_error = None, created_at = now, updated_at = now\<rparr>]"
  by (simp add: enqueue_def)

lemma jobs_claim_due:
  "\<exists>ids. jobs (snd (claim_due now limit st)) =
     map (\<lambda>j. if is_due now j \<and> job_id j \<in> ids then mark_running now j else j) (jobs st)"
  by (auto simp: claim_due_def Let_def)

lemma jobs_complete:
  "jobs (complete cfg now i outcome st) =
     map (\<lambda>j. if job_id j = i \<and> status j = Running then apply_outcome cfg now outcome j else j)
       (jobs st)"
  by (simp add: complete_def)

lemma next_id_claim_due: "next_id (snd (claim_due now limit st)) = next_id st"
  by (simp add: claim_due_def Let_def)

lemma next_id_complete: "next_id (complete cfg now i outcome st) = next_id st"
  by (simp add: complete_def)

lemma find_snoc:
  "find P (xs @ [y]) =
     (case find P xs of None \<Rightarrow> (if P y then Some y else None) | Some x \<Rightarrow> Some x)"
  by (induction xs) simp_all

lemma find_map_id_preserving:
  assumes "\<And>j. job_id (f j) = job_id j"
  shows "find (\<lambda>j. job_id j = i) (map f xs) = map_option f (find (\<lambda>j. job_id j = i) xs)"
  by (induction xs) (simp_all add: assms)

text \<open>
  One operation, seen from one job id: the job stays in the table, its attempt count
  does not fall, and a dead-lettered job is left untouched.
\<close>

lemma lookup_job_step:
  assumes "lookup_job st i = Some j"
  shows "\<exists>j'. lookup_job (apply_op cfg st op) i = Some j' \<and>
           attempt_count j \<le> attempt_count j' \<and> (status j = DeadLetter \<longrightarrow> j' = j)"
proof (cases op)
  case (Pair now sop)
  show ?thesis
  proof (cases sop)
    case (Enqueue acct dmn pl ra)
    with Pair assms show ?thesis
      by (simp add: lookup_job_def jobs_enqueue find_snoc)
  next
    case (ClaimDue limit)
    obtain ids where ids: "jobs (snd (claim_due now limit st)) =
        map (\<lambda>j. if is_due now j \<and> job_id j \<in> ids then mark_running now j else j) (jobs st)"
      using jobs_claim_due by blast
    have "lookup_job (snd (claim_due now limit st)) i =
        map_option (\<lambda>j. if is_due now j \<and> job_id j \<in> ids then mark_running now j else j)
          (lookup_job st i)"
      unfolding lookup_job_def ids
      by (rule find_map_id_preserving) (simp add: job_id_mark_running)
    with Pair ClaimDue assms show ?thesis
      by (auto simp: is_due_def attempt_count_mark_running)
  next
    case (Complete k outcome)
    have "lookup_job (complete cfg now k outcome st) i =
        map_option (\<lambda>j. if job_id j = k \<and> status j = Running
                         then apply_outcome cfg now outcome j else j) (lookup_job st i)"
      unfolding lookup_job_def jobs_complete
      by (rule find_map_id_preserving) (simp add: job_id_apply_outcome)
    with Pair Complete assms show ?thesis
      by (auto simp: attempt_count_apply_outcome)
  qed
qed

lemma run_ops_Cons: "run_ops cfg st (op # ops) = run_ops cfg (apply_op cfg st op) ops"
  by (simp add: run_ops_def)

lemma run_ops_snoc: "run_ops cfg st (ops @ [op]) = apply_op cfg (run_ops cfg st ops) op"
  by (simp add: run_ops_def)

lemma lookup_job_run_ops:
  assumes "lookup_job st i = Some j"
  shows "\<exists>j'. lookup_job (run_ops cfg st ops) i = Some j' \<and>
           attempt_count j \<le> attempt_count j' \<and> (status j = DeadLetter \<longrightarrow> j' = j)"
  using assms
proof (induction ops arbitrary: st j)
  case Nil
  then show ?case by (simp add: run_ops_def)
next
  case (Cons op ops)
  from lookup_job_step [OF Cons.prems, of cfg op] obtain j1 where
    j1: "lookup_job (apply_op cfg st op) i = Some j1" "attempt_count j \<le> attempt_count j1"
      "status j = DeadLetter \<longrightarrow> j1 = j" by blast
  from Cons.IH [OF j1(1)] obtain j' where
    j': "lookup_job (run_ops cfg (apply_op cfg st op) ops) i = Some j'"
      "attempt_count j1 \<le> attempt_count j'" "status j1 = DeadLetter \<longrightarrow> j' = j1" by blast
  from j1 j' show ?case unfolding run_ops_Cons by auto
qed

subsection \<open>The invariant along every sequence of operations\<close>

lemma store_ok_empty: "store_ok empty_store"
  by (simp add: store_ok_def empty_store_def)

lemma store_ok_step:
  assumes "0 < default_max_attempts cfg" and "store_ok st"
  shows "store_ok (apply_op cfg st op)"
proof (cases op)
  case (Pair now sop)
  show ?thesis
  proof (cases sop)
    case (Enqueue acct dmn pl ra)
    have "next_id (snd (enqueue cfg now acct dmn pl ra st)) = Suc (next_id st)"
      by (simp add: enqueue_def)
    with Pair Enqueue assms show ?thesis
      by (auto simp: store_ok_def jobs_enqueue job_ok_def less_Suc_eq)
  next
    case (ClaimDue limit)
    obtain ids where ids: "jobs (snd (claim_due now limit st)) =
        map (\<lambda>j. if is_due now j \<and> job_id j \<in> ids then mark_running now j else j) (jobs st)"
      using jobs_claim_due by blast
    with Pair ClaimDue assms(2) show ?thesis
      by (auto simp: store_ok_def job_ok_mark_running job_id_mark_running next_id_claim_due)
  next
    case (Complete k outcome)
    with Pair assms(2) show ?thesis
      by (auto simp: store_ok_def jobs_complete job_ok_apply_outcome job_id_apply_outcome
          next_id_complete)
  qed
qed

lemma store_ok_run_ops:
  assumes "0 < default_max_attempts cfg" and "store_ok st"
  shows "store_ok (run_ops cfg st ops)"
  using assms(2)
proof (induction ops arbitrary: st)
  case Nil
  then show ?case by (simp add: run_ops_def)
next
  case (Cons op ops)
  from store_ok_step [OF assms(1) Cons.prems] have "store_ok (apply_op cfg st op)" .
  from Cons.IH [OF this] show ?case by (simp only: run_ops_Cons)
qed

lemma lookup_enqueued:
  assumes "store_ok st"
  shows "\<exists>j. lookup_job (snd (enqueue cfg now acct dmn pl ra st))
               (fst (enqueue cfg now acct dmn pl ra st)) = Some j \<and>
             attempt_count j = 0 \<and> status j = Pending"
proof -
  from assms have "\<forall>j \<in> set (jobs st). job_id j \<noteq> next_id st"
    by (auto simp: store_ok_def)
  then have "find (\<lambda>j. job_id j = next_id st) (jobs st) = None"
    by (simp add: find_None_iff)
  moreover have "fst (enqueue cfg now acct dmn pl ra st) = next_id st"
    by (simp add: enqueue_def)
  ultimately show ?thesis
    by (simp add: lookup_job_def jobs_enqueue find_snoc)
qed

text \<open>
  Claim C2. With a positive configured ceiling, along every sequence of enqueue, claim_due
  and complete operations on an initially empty store: every job has
  \<open>attempt_count \<le> max_attempts\<close> after every transition; no operation lowers the attempt
  count of a job; and a job that is enqueued starts with attempt count 0.
\<close>

theorem attempt_count_invariant:
  assumes "0 < default_max_attempts cfg"
  shows "(\<forall>j \<in> set (jobs (run_ops cfg empty_store ops)). attempt_count j \<le> max_attempts j) \<and>
         (\<forall>i j. lookup_job (run_ops cfg empty_store ops) i = Some j \<longrightarrow>
            (\<exists>j'. lookup_job (run_ops cfg empty_store (ops @ [op])) i = Some j' \<and>
                  attempt_count j \<le> attempt_count j')) \<and>
         (\<forall>now acct dmn pl ra.
            \<exists>j. lookup_job (snd (enqueue cfg now acct dmn pl ra (run_ops cfg empty_store ops)))
                   (fst (enqueue cfg now acct dmn pl ra (run_ops cfg empty_store ops))) = Some j \<and>
                attempt_count j = 0)"
proof -
  have ok: "store_ok (run_ops cfg empty_store ops)"
    using assms store_ok_empty by (rule store_ok_run_ops)
  then have bound:
    "\<forall>j \<in> set (jobs (run_ops cfg empty_store ops)). attempt_count j \<le> max_attempts j"
    by (simp add: store_ok_def job_ok_def)
  have mono: "\<forall>i j. lookup_job (run_ops cfg empty_store ops) i = Some j \<longrightarrow>
            (\<exists>j'. lookup_job (run_ops cfg empty_store (ops @ [op])) i = Some j' \<and>
                  attempt_count j \<le> attempt_count j')"
    unfolding run_ops_snoc using lookup_job_step by blast
  have start: "\<forall>now acct dmn pl ra.
            \<exists>j. lookup_job (snd (enqueue cfg now acct dmn pl ra (run_ops cfg empty_store ops)))
                   (fst (enqueue cfg now acct dmn pl ra (run_ops cfg empty_store ops))) = Some j \<and>
                attempt_count j = 0"
    using lookup_enqueued [OF ok] by blast
  from bound mono start show ?thesis by blast
qed

lemma example_run_jobs:
  "jobs (run_ops example_cfg empty_store example_ops) =
     [\<lparr>job_id = 0, account_id = ''acct-a'', domain = Email, status = DeadLetter,
       payload = JObj [], attempt_count = 2, max_attempts = 2, run_after = 66,
       last_error = Some ''timeout'', created_at = 0, updated_at = 101\<rparr>]"
  by code_simp

theorem attempt_count_invariant_witness:
  "0 < default_max_attempts example_cfg \<and>
   map attempt_count (jobs (run_ops example_cfg empty_store example_ops)) = [2] \<and>
   map max_attempts (jobs (run_ops example_cfg empty_store example_ops)) = [2] \<and>
   list_all (\<lambda>j. attempt_count j \<le> max_attempts j)
     (jobs (run_ops example_cfg empty_store example_ops))"
proof -
  have pos: "0 < default_max_attempts example_cfg"
    by (simp add: example_cfg_def)
  from attempt_count_invariant [OF pos, of example_ops "(200, ClaimDue 3)"]
  have "list_all (\<lambda>j. attempt_count j \<le> max_attempts j)
          (jobs (run_ops example_cfg empty_store example_ops))"
    by (simp add: list_all_iff)
  with pos show ?thesis by (simp add: example_run_jobs)
qed

text \<open>
  Claim C3. Once a job is dead-lettered, no sequence of enqueue, claim_due and complete
  operations changes it: under its id the store keeps the same job, whose status is
  dead-letter and so neither pending nor running.
\<close>

theorem dead_letter_terminal:
  assumes "lookup_job st i = Some j" and "status j = DeadLetter"
  shows "lookup_job (run_ops cfg st ops) i = Some j \<and>
         map_option status (lookup_job (run_ops cfg st ops) i) = Some DeadLetter"
  using lookup_job_run_ops [OF assms(1), of cfg ops] assms(2) by auto

lemma example_dead_job:
  "lookup_job (run_ops example_cfg empty_store example_ops) 0 =
     Some \<lparr>job_id = 0, account_id = ''acct-a'', domain = Email, status = DeadLetter,
       payload = JObj [], attempt_count = 2, max_attempts = 2, run_after = 66,
       last_error = Some ''timeout'', created_at = 0, updated_at = 101\<rparr>"
  by (simp add: lookup_job_def example_run_jobs)

theorem dead_letter_terminal_witness:
  "map_option status (lookup_job (run_ops example_cfg empty_store example_ops) 0) =
     Some DeadLetter \<and>
   map_option status
     (lookup_job (run_ops example_cfg (run_ops example_cfg empty_store example_ops) later_ops) 0) =
     Some DeadLetter \<and>
   lookup_job (run_ops example_cfg (run_ops example_cfg empty_store example_ops) later_ops) 0 =
     lookup_job (run_ops example_cfg empty_store example_ops) 0"
  using dead_letter_terminal [OF example_dead_job, of example_cfg later_ops]
  by (simp add: example_dead_job)

section \<open>Properties of a run and of the enqueue request\<close>

subsection \<open>Every run returns\<close>

lemma job_weight_mark_running:
  "is_due now j \<Longrightarrow> job_weight (mark_running now j) < job_weight j"
  by (simp add: job_weight_def mark_running_def is_due_def)

lemma job_weight_apply_outcome:
  "status j = Running \<Longrightarrow> job_weight (apply_outcome cfg now outcome j) < job_weight j"
  by (cases outcome) (auto simp: job_weight_def apply_outcome_def)

lemma sum_list_map_le:
  "(\<And>x. x \<in> set xs \<Longrightarrow> f (g x) \<le> (f x :: nat)) \<Longrightarrow>
   sum_list (map f (map g xs)) \<le> sum_list (map f xs)"
  by (induction xs) (auto intro: add_mono)

lemma sum_list_map_less:
  assumes "\<And>x. x \<in> set xs \<Longrightarrow> f (g x) \<le> (f x :: nat)"
    and "y \<in> set xs" and "f (g y) < f y"
  shows "sum_list (map f (map g xs)) < sum_list (map f xs)"
  using assms
proof (induction xs)
  case Nil
  then show ?case by simp
next
  case (Cons x xs)
  have le_x: "f (g x) \<le> f x" by (rule Cons.prems(1)) simp
  have le_xs: "sum_list (map f (map g xs)) \<le> sum_list (map f xs)"
    by (rule sum_list_map_le) (simp add: Cons.prems(1))
  show ?case
  proof (cases "y = x")
    case True
    with Cons.prems(3) le_xs show ?thesis by simp
  next
    case False
    with Cons.prems(2) have "y \<in> set xs" by simp
    then have "sum_list (map f (map g xs)) < sum_list (map f xs)"
      using Cons.IH Cons.prems(1,3) by simp
    with le_x show ?thesis by simp
  qed
qed

lemma pending_work_complete:
  "pending_work (complete cfg now i outcome st) \<le> pending_work st"
  unfolding pending_work_def complete_def
  by (simp del: map_map, rule sum_list_map_le)
     (auto simp: job_weight_apply_outcome less_imp_le)

lemma pending_work_run_batch:
  "pending_work (fst (run_batch cfg exec now batch (st, acc))) \<le> pending_work st"
proof (induction batch arbitrary: st acc)
  case Nil
  show ?case by simp
next
  case (Cons j js)
  have "pending_work (fst (run_batch cfg exec now js
          (complete cfg now (job_id j) (exec j) st, record_outcome j (exec j) acc)))
        \<le> pending_work (complete cfg now (job_id j) (exec j) st)"
    by (rule Cons.IH)
  also have "\<dots> \<le> pending_work st" by (rule pending_work_complete)
  finally show ?case by simp
qed

lemma pending_work_claim_due:
  assumes "claim_due now limit st = (batch, st1)" and "batch \<noteq> []"
  shows "pending_work st1 < pending_work st"
proof -
  define selected where
    "selected = take limit (sort_key (\<lambda>j. (run_after j, created_at j)) (filter (is_due now) (jobs st)))"
  from assms(1) have batch: "batch = map (mark_running now) selected"
    and st1: "jobs st1 = map (\<lambda>j. if is_due now j \<and> job_id j \<in> set (map job_id selected)
                                  then mark_running now j else j) (jobs st)"
    by (auto simp: claim_due_def selected_def Let_def)
  from assms(2) batch obtain y where y: "y \<in> set selected" by (cases selected) auto
  then have "y \<in> set (sort_key (\<lambda>j. (run_after j, created_at j)) (filter (is_due now) (jobs st)))"
    unfolding selected_def by (rule in_set_takeD)
  then have y_in: "y \<in> set (jobs st)" and y_due: "is_due now y" by simp_all
  from y have y_id: "job_id y \<in> set (map job_id selected)" by simp
  show ?thesis
    unfolding pending_work_def st1
  proof (rule sum_list_map_less [where y = y])
    show "y \<in> set (jobs st)" by (rule y_in)
  next
    from y_due y_id job_weight_mark_running [OF y_due]
    show "job_weight (if is_due now y \<and> job_id y \<in> set (map job_id selected)
                      then mark_running now y else y) < job_weight y"
      by simp
  next
    fix x assume "x \<in> set (jobs st)"
    show "job_weight (if is_due now x \<and> job_id x \<in> set (map job_id selected)
                      then mark_running now x else x) \<le> job_weight x"
      by (auto simp: job_weight_mark_running less_imp_le)
  qed
qed

text \<open>
  A non-empty claim lowers the work left, and applying outcomes never raises it: the loop
  of a run ends from every store, for every executor.
\<close>

lemma dispatch_loop_returns:
  "\<exists>r. dispatch_loop cfg exec now st acc = Some r"
proof (induction "pending_work st" arbitrary: st acc rule: less_induct)
  case less
  show ?case
  proof (cases "global_slots cfg = 0")
    case True
    then show ?thesis by (subst dispatch_loop.simps) simp
  next
    case slots: False
    obtain batch st1 where claim: "claim_due now (global_slots cfg) st = (batch, st1)"
      by (cases "claim_due now (global_slots cfg) st")
    show ?thesis
    proof (cases "batch = []")
      case True
      with slots claim show ?thesis by (subst dispatch_loop.simps) simp
    next
      case False
      obtain st2 acc2 where batch: "run_batch cfg exec now batch (st1, acc) = (st2, acc2)"
        by (cases "run_batch cfg exec now batch (st1, acc)")
      from pending_work_run_batch [of cfg exec now batch st1 acc] batch
      have "pending_work st2 \<le> pending_work st1" by simp
      also have "\<dots> < pending_work st" using claim False by (rule pending_work_claim_due)
      finally have "\<exists>r. dispatch_loop cfg exec now st2 acc2 = Some r" by (rule less.hyps)
      with slots claim False batch show ?thesis by (subst dispatch_loop.simps) simp
    qed
  qed
qed

lemma run_queue_returns: "\<exists>r. run_queue cfg exec now st = Some r"
  unfolding run_queue_def by (rule dispatch_loop_returns)

subsection \<open>The run with nothing due, and the enqueue request\<close>






text \<open>
  Claim C8, as the code has it. \<open>queue_job\<close> takes an account id, a domain, a payload and
  a run-after offset in seconds that defaults to 0; it fails with \<open>InvalidAccount\<close> when
  the account id resolves to no account and enqueues the job otherwise. Where the Tauri
  module is loaded, \<open>queueEmailSync\<close> sends exactly one command, \<open>queue_sync_job\<close>, for
  the given account id with domain \<open>email\<close>, an empty payload object and a run-after offset
  of zero, and rejects when that call rejects; where the import of the module fails it
  sends nothing and returns.
\<close>

theorem queue_job_and_queueEmailSync:
  "(acct \<notin> set (map acc_id accts) \<longrightarrow>
      queue_job cfg accts now st acct dmn pl off = Inl InvalidAccount) \<and>
   (acct \<in> set (map acc_id accts) \<longrightarrow>
      queue_job cfg accts now st acct dmn pl None = Inr (enqueue cfg now acct dmn pl now st) \<and>
      queue_job cfg accts now st acct dmn pl (Some secs) =
        Inr (enqueue cfg now acct dmn pl (now + secs) st)) \<and>
   fst (queueEmailSync (Inr invoke) accountId) =
     [(''queue_sync_job'',
       Some (JObj [(''payload'',
                    JObj [(''account_id'', JStr accountId), (''domain'', JStr ''email''),
                          (''payload'', JObj []), (''run_after_secs'', JNum 0)])]))] \<and>
   snd (queueEmailSync (Inr invoke) accountId) =
     map_sum id (\<lambda>r. ())
       (invoke ''queue_sync_job'' (Some (queue_sync_job_args accountId))) \<and>
   queueEmailSync (Inl err) accountId = ([], Inr ())"
  by (simp add: queue_job_def queueEmailSync_def getInvoke_def queue_sync_job_args_def
      split: sum.split)

theorem queue_job_and_queueEmailSync_witness:
  "''acct-b'' \<notin> set (map acc_id [example_account]) \<and>
   queue_job example_cfg [example_account] 10 empty_store ''acct-b'' Email (JObj []) None =
     Inl InvalidAccount \<and>
   ''acct-a'' \<in> set (map acc_id [example_account]) \<and>
   map_sum id fst
     (queue_job example_cfg [example_account] 10 empty_store ''acct-a'' Email (JObj []) None) =
     Inr 0"
proof -
  have b: "''acct-b'' \<notin> set (map acc_id [example_account])"
    and a: "''acct-a'' \<in> set (map acc_id [example_account])"
    by (simp_all add: example_account_def)
  from queue_job_and_queueEmailSync
    [of "''acct-b''" "[example_account]" example_cfg 10 empty_store Email "JObj []" None] b
  have "queue_job example_cfg [example_account] 10 empty_store ''acct-b'' Email (JObj []) None =
          Inl InvalidAccount"
    by blast
  moreover
  from queue_job_and_queueEmailSync
    [of "''acct-a''" "[example_account]" example_cfg 10 empty_store Email "JObj []"] a
  have "queue_job example_cfg [example_account] 10 empty_store ''acct-a'' Email (JObj []) None =
          Inr (enqueue example_cfg 10 ''acct-a'' Email (JObj []) 10 empty_store)"
    by blast
  ultimately show ?thesis
    using a b by (simp add: enqueue_def empty_store_def)
qed

text \<open>
  Claim C8, as stated, has \<open>queueEmailSync\<close> send one request for every account id: where
  the import of the Tauri module fails it sends none.
\<close>

theorem queueEmailSync_counterexample:
  "fst (queueEmailSync (Inl ''import failed'' :: string + unit invoke) ''acct-a'') = [] \<and>
   length (fst (queueEmailSync (Inl ''import failed'' :: string + unit invoke) ''acct-a'')) \<noteq> 1"
  by (simp add: queueEmailSync_def getInvoke_def)

end
